theory Spec2Isabelle
  imports Complex_Main "HOL-Library.Multiset"
begin

section \<open>Python string operations\<close>

text \<open>
  \<^verbatim>\<open>str.isspace\<close> on the code points 0..255: tab to carriage return, the four
  separators 0x1C..0x1F, the space, NEL (0x85) and the no-break space (0xA0).
\<close>

definition is_space :: "char \<Rightarrow> bool" where
  "is_space c =
     (let n = (of_char c :: nat)
      in (9 \<le> n \<and> n \<le> 13) \<or> (28 \<le> n \<and> n \<le> 31) \<or> n = 32 \<or> n = 133 \<or> n = 160)"

text \<open>\<^verbatim>\<open>s.strip()\<close>\<close>

definition strip :: "string \<Rightarrow> string" where
  "strip s = rev (dropWhile is_space (rev (dropWhile is_space s)))"


text \<open>\<^verbatim>\<open>s.split()\<close>: the maximal runs of characters that are not whitespace.\<close>

fun split_ws :: "string \<Rightarrow> string \<Rightarrow> string list" where
  "split_ws [] cur = (if cur = [] then [] else [cur])"
| "split_ws (c # cs) cur =
     (if is_space c then (if cur = [] then split_ws cs [] else cur # split_ws cs [])
      else split_ws cs (cur @ [c]))"

text \<open>
  \<^verbatim>\<open>s.find(sub, start)\<close>: the lowest index at or after \<open>start\<close> where \<open>sub\<close> occurs,
  \<open>None\<close> for Python's \<open>-1\<close>.
\<close>

fun find_at :: "string \<Rightarrow> string \<Rightarrow> nat \<Rightarrow> nat option" where
  "find_at sub [] i = (if sub = [] then Some i else None)"
| "find_at sub (c # cs) i =
     (if take (length sub) (c # cs) = sub then Some i else find_at sub cs (Suc i))"

definition find_str :: "string \<Rightarrow> string \<Rightarrow> nat \<Rightarrow> nat option" where
  "find_str s sub start = (if length s < start then None else find_at sub (drop start s) start)"

text \<open>\<^verbatim>\<open>str(n)\<close> for a non-negative integer: its decimal digits, built from the right.\<close>

definition digit_char :: "nat \<Rightarrow> char" where
  "digit_char d = char_of (of_char (CHR ''0'') + d)"

fun decimal_digits :: "nat \<Rightarrow> string \<Rightarrow> string" where
  "decimal_digits n acc =
     (if n < 10 then digit_char n # acc
      else decimal_digits (n div 10) (digit_char (n mod 10) # acc))"

definition string_of_nat :: "nat \<Rightarrow> string" where
  "string_of_nat n = decimal_digits n []"

section \<open>Shared data: JSON values, Python errors, dictionaries\<close>

text \<open>
  The pipeline passes loosely typed dictionaries between its stages. A JSON value is
  what \<^verbatim>\<open>json.loads\<close> can return; a dictionary is an association list read with
  \<open>map_of\<close> (first binding of a key). Strings are lists of 8-bit characters, read as
  the code points 0..255 of a Python \<^verbatim>\<open>str\<close>.
\<close>

datatype json =
    JNull
  | JBool bool
  | JNum real
  | JStr string
  | JArr "json list"
  | JObj "(string \<times> json) list"

type_synonym dict = "(string \<times> json) list"

datatype py_error =
    ValueError string
  | AttributeError
  | JSONDecodeError
  | FileNotFoundError string
  | IndexError
  | OtherError string

text \<open>Python truthiness of \<^verbatim>\<open>d.get(k)\<close>: a missing key gives \<^verbatim>\<open>None\<close>.\<close>

fun truthy :: "json option \<Rightarrow> bool" where
  "truthy None = False"
| "truthy (Some JNull) = False"
| "truthy (Some (JBool b)) = b"
| "truthy (Some (JNum r)) = (r \<noteq> 0)"
| "truthy (Some (JStr s)) = (s \<noteq> [])"
| "truthy (Some (JArr xs)) = (xs \<noteq> [])"
| "truthy (Some (JObj kvs)) = (kvs \<noteq> [])"

text \<open>\<^verbatim>\<open>bool(upload_id)\<close> for an optional string: \<^verbatim>\<open>None\<close> and \<^verbatim>\<open>""\<close> are false.\<close>

fun has_session :: "string option \<Rightarrow> bool" where
  "has_session None = False"
| "has_session (Some u) = (u \<noteq> [])"

section \<open>Retriever (src/rag/retriever.py)\<close>

text \<open>
  The similarity store is a collaborator. A collection answers a query embedding and a
  result count with three parallel lists; the client finds a collection by name or
  fails (\<open>None\<close> stands for the exception of \<^verbatim>\<open>get_collection\<close>). Distances are
  compared only by order, so they are modelled as real numbers.
\<close>

type_synonym embedding = "real list"

record query_result =
  documents :: "string list"
  metadatas :: "dict list"
  distances :: "real list"

record collection =
  coll_name :: string
  coll_count :: nat
  coll_query :: "embedding \<Rightarrow> nat \<Rightarrow> query_result"

type_synonym chroma_client = "string \<Rightarrow> collection option"

record hit =
  h_text :: string
  h_metadata :: dict
  h_distance :: real

record retriever =
  r_mode :: string
  r_upload_id :: "string option"
  text_collections :: "(string \<times> collection) list"
  image_collections :: "(string \<times> collection) list"

definition SIMILARITY_THRESHOLD :: real where
  "SIMILARITY_THRESHOLD = 7 / 10"

text \<open>
  The inner loop of \<^verbatim>\<open>_load_regulatory_collections\<close>: the first name that exists and
  holds at least one document wins (\<^verbatim>\<open>break\<close>); a missing or empty one is skipped.
\<close>

fun first_populated :: "chroma_client \<Rightarrow> string list \<Rightarrow> collection option" where
  "first_populated client [] = None"
| "first_populated client (n # ns) =
     (case client n of
        None \<Rightarrow> first_populated client ns
      | Some col \<Rightarrow> if coll_count col > 0 then Some col else first_populated client ns)"

definition load_regulatory_collections :: "chroma_client \<Rightarrow> retriever \<Rightarrow> retriever" where
  "load_regulatory_collections client r =
     (let r1 = (case first_populated client
                       [''finreg_regulatory_text_store'', ''finreg_text_store''] of
                  None \<Rightarrow> r
                | Some col \<Rightarrow>
                    r\<lparr>text_collections := text_collections r @ [(''regulatory'', col)]\<rparr>)
      in (case first_populated client
                 [''finreg_regulatory_image_store'', ''finreg_image_store''] of
            None \<Rightarrow> r1
          | Some col \<Rightarrow>
              r1\<lparr>image_collections := image_collections r1 @ [(''regulatory'', col)]\<rparr>))"

definition load_uploaded_collections ::
  "chroma_client \<Rightarrow> string \<Rightarrow> retriever \<Rightarrow> retriever" where
  "load_uploaded_collections client upload_id r =
     (let r1 = (case client (''finreg_uploaded_text_'' @ upload_id) of
                  None \<Rightarrow> r
                | Some col \<Rightarrow>
                    r\<lparr>text_collections := text_collections r @ [(''uploaded'', col)]\<rparr>)
      in (case client (''finreg_uploaded_image_'' @ upload_id) of
            None \<Rightarrow> r1
          | Some col \<Rightarrow>
              r1\<lparr>image_collections := image_collections r1 @ [(''uploaded'', col)]\<rparr>))"

text \<open>\<^verbatim>\<open>Retriever.__init__\<close>: which collections a mode consults.\<close>

definition Retriever_init ::
  "chroma_client \<Rightarrow> string \<Rightarrow> string option \<Rightarrow> py_error + retriever" where
  "Retriever_init client mode upload_id =
     (let r0 = \<lparr>r_mode = mode, r_upload_id = upload_id,
                 text_collections = [], image_collections = []\<rparr>;
          r1 = (if mode \<in> set [''regulatory_only'', ''compare'']
                then load_regulatory_collections client r0 else r0)
      in if mode \<in> set [''uploaded_only'', ''compare'']
         then (case upload_id of
                 None \<Rightarrow> Inl (ValueError ''upload_id required for uploaded mode'')
               | Some u \<Rightarrow>
                   if u = [] then Inl (ValueError ''upload_id required for uploaded mode'')
                   else Inr (load_uploaded_collections client u r1))
         else Inr r1)"

text \<open>
  \<^verbatim>\<open>Retriever._search\<close>: the loop over \<^verbatim>\<open>zip(docs, metas, distances)\<close> appends a hit
  to \<^verbatim>\<open>filtered\<close> when its distance is within the threshold.
\<close>

fun search_loop :: "(string \<times> dict \<times> real) list \<Rightarrow> hit list \<Rightarrow> hit list" where
  "search_loop [] filtered = filtered"
| "search_loop ((d, m, dis) # rest) filtered =
     (if dis \<le> SIMILARITY_THRESHOLD
      then search_loop rest (filtered @ [\<lparr>h_text = d, h_metadata = m, h_distance = dis\<rparr>])
      else search_loop rest filtered)"

definition store_answer :: "collection \<Rightarrow> embedding \<Rightarrow> nat \<Rightarrow> (string \<times> dict \<times> real) list" where
  "store_answer col query_embedding k =
     (let results = coll_query col query_embedding k
      in zip (documents results) (zip (metadatas results) (distances results)))"

definition internal_search :: "collection \<Rightarrow> embedding \<Rightarrow> nat \<Rightarrow> hit list" where
  "internal_search col query_embedding k = search_loop (store_answer col query_embedding k) []"

record search_output =
  out_uploaded_text :: "hit list"
  out_regulatory_text :: "hit list"
  out_uploaded_images :: "hit list"
  out_regulatory_images :: "hit list"

fun search_text_collections ::
  "(string \<times> collection) list \<Rightarrow> embedding \<Rightarrow> nat \<Rightarrow> search_output \<Rightarrow> search_output" where
  "search_text_collections [] e k out = out"
| "search_text_collections ((label, col) # rest) e k out =
     (let hits = internal_search col e k
      in search_text_collections rest e k
           (if label = ''uploaded''
            then out\<lparr>out_uploaded_text := out_uploaded_text out @ hits\<rparr>
            else out\<lparr>out_regulatory_text := out_regulatory_text out @ hits\<rparr>))"

fun search_image_collections ::
  "(string \<times> collection) list \<Rightarrow> embedding \<Rightarrow> nat \<Rightarrow> search_output \<Rightarrow> search_output" where
  "search_image_collections [] e k out = out"
| "search_image_collections ((label, col) # rest) e k out =
     (let hits = internal_search col e k
      in search_image_collections rest e k
           (if label = ''uploaded''
            then out\<lparr>out_uploaded_images := out_uploaded_images out @ hits\<rparr>
            else out\<lparr>out_regulatory_images := out_regulatory_images out @ hits\<rparr>))"

text \<open>\<^verbatim>\<open>Retriever.search\<close>; \<open>encode\<close> is the embedding model.\<close>

definition search :: "(string \<Rightarrow> embedding) \<Rightarrow> retriever \<Rightarrow> string \<Rightarrow> search_output" where
  "search encode r query =
     (let k = (if r_mode r = ''compare'' then 5 else 3);
          query_embedding = encode query;
          output = \<lparr>out_uploaded_text = [], out_regulatory_text = [],
                     out_uploaded_images = [], out_regulatory_images = []\<rparr>
      in search_image_collections (image_collections r) query_embedding k
           (search_text_collections (text_collections r) query_embedding k output))"

definition total_hits :: "search_output \<Rightarrow> nat" where
  "total_hits out =
     length (out_uploaded_text out) + length (out_regulatory_text out)
     + length (out_uploaded_images out) + length (out_regulatory_images out)"

text \<open>The kept hit of a store entry, and the test the loop applies to it.\<close>

definition hit_of :: "string \<times> dict \<times> real \<Rightarrow> hit" where
  "hit_of t = (case t of (d, m, dis) \<Rightarrow> \<lparr>h_text = d, h_metadata = m, h_distance = dis\<rparr>)"

definition within_threshold :: "string \<times> dict \<times> real \<Rightarrow> bool" where
  "within_threshold t = (case t of (d, m, dis) \<Rightarrow> dis \<le> 7 / 10)"

section \<open>The query graph (src/graph/query_graph.py and src/agents)\<close>

text \<open>
  The progress log holds formatted messages; each message of the source is one
  constructor, with the values its f-string interpolates.
\<close>

datatype progress_msg =
    DeterminingIntent
  | SearchingKB
  | NothingInKB
  | FoundChunks nat nat
  | SearchingWeb
  | WebReturned nat
  | WebNoResults
  | WebFailed string
  | GeneratingAnswer
  | AnswerReady

record web_result =
  w_title :: string
  w_url :: string
  w_snippet :: string

text \<open>
  \<^verbatim>\<open>GraphState\<close> is a dictionary whose keys may be absent (\<^verbatim>\<open>total=False\<close>). The keys read
  with a default or written with \<^verbatim>\<open>setdefault\<close> are options; an absent list reads as
  \<open>[]\<close>.
\<close>

record graph_state =
  query :: string
  upload_id :: "string option"
  mode :: "string option"
  need_web :: "bool option"
  uploaded_text :: "hit list"
  regulatory_text :: "hit list"
  uploaded_images :: "hit list"
  regulatory_images :: "hit list"
  retrieval_results :: "search_output option"
  web_results :: "web_result list option"
  answer :: "string option"
  images :: "json list"
  progress :: "progress_msg list"

text \<open>
  The collaborators. \<open>intent_llm\<close> is \<^verbatim>\<open>OllamaClient.chat\<close> on the classification
  prompt built from the query and \<^verbatim>\<open>has_upload\<close>; it never raises (it returns
  \<^verbatim>\<open>"LLM_ERROR"\<close>). \<open>loads_cleaned\<close> is the two \<^verbatim>\<open>re.sub\<close> cleanings followed by
  \<^verbatim>\<open>json.loads\<close>. \<open>ddgs_text\<close> is \<^verbatim>\<open>DDGS().text(query, max_results)\<close>, which returns its
  result list or raises (\<open>Inl\<close> holds the exception's message).
\<close>

record raw_result =
  href :: "string option"
  title :: "string option"
  body :: "string option"

record collaborators =
  intent_llm :: "string \<Rightarrow> bool \<Rightarrow> string"
  loads_cleaned :: "string \<Rightarrow> py_error + json"
  chroma :: chroma_client
  encode :: "string \<Rightarrow> embedding"
  ddgs_text :: "string \<Rightarrow> nat \<Rightarrow> string + raw_result list"
  final_llm :: "string \<Rightarrow> string"

subsection \<open>IntentAgent.run\<close>

text \<open>\<^verbatim>\<open>result.get("mode", "regulatory_only")\<close>: only a dictionary has \<^verbatim>\<open>get\<close>.\<close>

fun json_get :: "json \<Rightarrow> string \<Rightarrow> json \<Rightarrow> py_error + json" where
  "json_get (JObj kvs) k dflt = Inr (case map_of kvs k of None \<Rightarrow> dflt | Some v \<Rightarrow> v)"
| "json_get _ k dflt = Inl AttributeError"

text \<open>The \<^verbatim>\<open>try\<close> block: any exception leaves the default mode in place.\<close>

definition classified_mode :: "collaborators \<Rightarrow> graph_state \<Rightarrow> json" where
  "classified_mode c state =
     (let response = intent_llm c (query state) (has_session (upload_id state))
      in case loads_cleaned c response of
           Inl e \<Rightarrow> JStr ''regulatory_only''
         | Inr result \<Rightarrow>
             (case json_get result ''mode'' (JStr ''regulatory_only'') of
                Inl e \<Rightarrow> JStr ''regulatory_only''
              | Inr m \<Rightarrow> m))"

definition allowed_modes :: "bool \<Rightarrow> string list" where
  "allowed_modes has_upload =
     (if has_upload then [''regulatory_only'', ''uploaded_only'', ''compare'']
      else [''regulatory_only'', ''web''])"

text \<open>\<^verbatim>\<open>mode not in allowed_modes\<close>: only a string equals a string.\<close>

fun enforce_allowed :: "string list \<Rightarrow> json \<Rightarrow> string" where
  "enforce_allowed allowed (JStr m) = (if m \<in> set allowed then m else ''regulatory_only'')"
| "enforce_allowed allowed _ = ''regulatory_only''"

definition IntentAgent_run :: "collaborators \<Rightarrow> graph_state \<Rightarrow> graph_state" where
  "IntentAgent_run c state =
     (let has_upload = has_session (upload_id state);
          s1 = state\<lparr>progress := progress state @ [DeterminingIntent]\<rparr>;
          m = classified_mode c state;
          s2 = (if m = JStr ''web'' then s1\<lparr>need_web := Some True\<rparr> else s1)
      in s2\<lparr>mode := Some (enforce_allowed (allowed_modes has_upload) m)\<rparr>)"

subsection \<open>RetrievalAgent.run\<close>

definition RetrievalAgent_run :: "collaborators \<Rightarrow> graph_state \<Rightarrow> py_error + graph_state" where
  "RetrievalAgent_run c state =
     (let m = (case mode state of None \<Rightarrow> ''regulatory_only'' | Some m \<Rightarrow> m);
          s1 = state\<lparr>progress := progress state @ [SearchingKB]\<rparr>
      in case Retriever_init (chroma c) m (upload_id state) of
           Inl e \<Rightarrow> Inl e
         | Inr retriever \<Rightarrow>
             (let results = search (encode c) retriever (query state);
                  s2 = s1\<lparr>uploaded_text := out_uploaded_text results,
                          regulatory_text := out_regulatory_text results,
                          uploaded_images := out_uploaded_images results,
                          regulatory_images := out_regulatory_images results,
                          retrieval_results := Some results\<rparr>
              in if total_hits results = 0
                 then Inr (s2\<lparr>need_web := Some True,
                              progress := progress s2 @ [NothingInKB]\<rparr>)
                 else Inr (s2\<lparr>need_web := Some False,
                              progress := progress s2 @
                                [FoundChunks
                                   (length (regulatory_text s2) + length (regulatory_images s2))
                                   (length (uploaded_text s2) + length (uploaded_images s2))]\<rparr>)))"

definition route_after_retrieval :: "graph_state \<Rightarrow> string" where
  "route_after_retrieval state =
     (if (case need_web state of None \<Rightarrow> False | Some b \<Rightarrow> b) then ''web'' else ''final'')"

subsection \<open>WebAgent.run\<close>


text \<open>The loop over the search results, with \<^verbatim>\<open>seen_urls\<close> and \<^verbatim>\<open>results\<close> as accumulators.\<close>

fun web_loop :: "raw_result list \<Rightarrow> string set \<Rightarrow> web_result list \<Rightarrow> web_result list" where
  "web_loop [] seen_urls results = results"
| "web_loop (r # rs) seen_urls results =
     (case href r of
        None \<Rightarrow> web_loop rs seen_urls results
      | Some url \<Rightarrow>
          if url = [] \<or> url \<in> seen_urls then web_loop rs seen_urls results
          else web_loop rs (insert url seen_urls)
                 (results @ [\<lparr>w_title = (case title r of None \<Rightarrow> [] | Some t \<Rightarrow> t),
                               w_url = url,
                               w_snippet = take 800 (case body r of None \<Rightarrow> [] | Some b \<Rightarrow> b)\<rparr>]))"

definition max_results :: nat where
  "max_results = 3"

definition WebAgent_run :: "collaborators \<Rightarrow> graph_state \<Rightarrow> graph_state" where
  "WebAgent_run c state =
     (let s0 = state\<lparr>web_results :=
                       Some (case web_results state of None \<Rightarrow> [] | Some ws \<Rightarrow> ws)\<rparr>
      in if \<not> (case need_web s0 of None \<Rightarrow> False | Some b \<Rightarrow> b) then s0
         else (let s1 = s0\<lparr>progress := progress s0 @ [SearchingWeb]\<rparr>
               in case ddgs_text c (query s1) max_results of
                    Inr rs \<Rightarrow>
                      (let results = web_loop rs {} []
                       in s1\<lparr>progress := progress s1 @
                                [if results \<noteq> [] then WebReturned (length results)
                                 else WebNoResults],
                             web_results := Some results\<rparr>)
                  | Inl e \<Rightarrow>
                      s1\<lparr>progress := progress s1 @ [WebFailed e],
                         web_results := Some []\<rparr>))"

subsection \<open>FinalAgent.run\<close>

text \<open>
  A retrieval hit seen as the dictionary the retriever built: its keys are
  \<^verbatim>\<open>text\<close>, \<^verbatim>\<open>metadata\<close> and \<^verbatim>\<open>distance\<close>, nothing else.
\<close>

definition hit_get :: "hit \<Rightarrow> string \<Rightarrow> json option" where
  "hit_get h k =
     (if k = ''text'' then Some (JStr (h_text h))
      else if k = ''metadata'' then Some (JObj (h_metadata h))
      else if k = ''distance'' then Some (JNum (h_distance h))
      else None)"

definition newline :: char where
  "newline = CHR 0x0A"

fun join :: "string \<Rightarrow> string list \<Rightarrow> string" where
  "join sep [] = []"
| "join sep [x] = x"
| "join sep (x # y # ys) = x @ sep @ join sep (y # ys)"

definition fmt_blocks :: "hit list \<Rightarrow> string \<Rightarrow> string" where
  "fmt_blocks blocks label =
     join [newline, newline]
       (map (\<lambda>b. ''['' @ label @ '']'' @ [newline] @ h_text b) blocks)"

definition fmt_web :: "web_result list \<Rightarrow> string" where
  "fmt_web results =
     join [newline, newline]
       (map (\<lambda>r. ''[WEB]'' @ [newline] @ ''Title: '' @ w_title r @ [newline]
                  @ ''URL: '' @ w_url r @ [newline] @ ''Snippet: '' @ w_snippet r) results)"

definition sections :: "graph_state \<Rightarrow> string list" where
  "sections state =
     (let reg_text = fmt_blocks (regulatory_text state) ''REGULATORY_KB'';
          upl_text = fmt_blocks (uploaded_text state) ''UPLOADED_DOC'';
          reg_img = fmt_blocks (regulatory_images state) ''REGULATORY_IMAGE'';
          upl_img = fmt_blocks (uploaded_images state) ''UPLOADED_IMAGE'';
          web = fmt_web (case web_results state of None \<Rightarrow> [] | Some ws \<Rightarrow> ws)
      in (if reg_text \<noteq> [] then [''--- Regulatory Knowledge Base ---'' @ [newline] @ reg_text]
          else [])
       @ (if upl_text \<noteq> [] then [''--- Uploaded Document ---'' @ [newline] @ upl_text] else [])
       @ (if reg_img \<noteq> [] then [''--- Regulatory Images ---'' @ [newline] @ reg_img] else [])
       @ (if upl_img \<noteq> [] then [''--- Uploaded Images ---'' @ [newline] @ upl_img] else [])
       @ (if web \<noteq> [] then [''--- Web Search Results ---'' @ [newline] @ web] else []))"

text \<open>The prompt; the graph state has no \<^verbatim>\<open>verbose\<close> key, so the default is printed.\<close>

definition context_of :: "graph_state \<Rightarrow> string" where
  "context_of state =
     ''User Question: '' @ query state @ [newline, newline]
     @ ''Execution Mode: ''
     @ (case mode state of None \<Rightarrow> ''regulatory_only'' | Some m \<Rightarrow> m) @ [newline]
     @ ''Verbose: False'' @ [newline, newline]
     @ (if sections state \<noteq> [] then join [newline, newline] (sections state)
        else ''No context available.'')"

text \<open>The two comprehensions over \<^verbatim>\<open>i.get("image_path")\<close> and the final filter.\<close>

definition image_path_list :: "hit list \<Rightarrow> json list" where
  "image_path_list hits =
     map (\<lambda>i. the (hit_get i ''image_path''))
       (filter (\<lambda>i. truthy (hit_get i ''image_path'')) hits)"

definition FinalAgent_run :: "collaborators \<Rightarrow> graph_state \<Rightarrow> graph_state" where
  "FinalAgent_run c state =
     (let s1 = state\<lparr>progress := progress state @ [GeneratingAnswer]\<rparr>;
          response = final_llm c (context_of s1);
          s2 = s1\<lparr>progress := progress s1 @ [AnswerReady]\<rparr>;
          image_paths = image_path_list (uploaded_images s2)
                        @ image_path_list (regulatory_images s2)
      in s2\<lparr>answer := Some response,
            images := filter (\<lambda>p. truthy (Some p)) image_paths\<rparr>)"

subsection \<open>The compiled graph\<close>

text \<open>
  Entry point \<^verbatim>\<open>intent\<close>, then \<^verbatim>\<open>retrieve\<close>, the conditional edge, \<^verbatim>\<open>web\<close> when routed
  there, and \<^verbatim>\<open>final\<close>. An exception of a node aborts the invocation.
\<close>

definition graph_invoke :: "collaborators \<Rightarrow> graph_state \<Rightarrow> py_error + graph_state" where
  "graph_invoke c state =
     (case RetrievalAgent_run c (IntentAgent_run c state) of
        Inl e \<Rightarrow> Inl e
      | Inr s2 \<Rightarrow>
          Inr (FinalAgent_run c
                 (if route_after_retrieval s2 = ''web'' then WebAgent_run c s2 else s2)))"

definition initial_state :: "string \<Rightarrow> string option \<Rightarrow> graph_state" where
  "initial_state q u =
     \<lparr>query = q, upload_id = u, mode = None, need_web = None,
      uploaded_text = [], regulatory_text = [], uploaded_images = [],
      regulatory_images = [], retrieval_results = None, web_results = None,
      answer = None, images = [], progress = []\<rparr>"

text \<open>The mode the Retrieve stage hands to the retriever.\<close>

definition retrieve_mode :: "collaborators \<Rightarrow> graph_state \<Rightarrow> string" where
  "retrieve_mode c state =
     (case mode (IntentAgent_run c state) of None \<Rightarrow> ''regulatory_only'' | Some m \<Rightarrow> m)"

section \<open>DocumentChunker (src/ingest/document_chunker.py)\<close>

text \<open>
  A cleaned document as \<^verbatim>\<open>chunk_document\<close> reads it: \<^verbatim>\<open>pdf_name\<close> (default
  \<^verbatim>\<open>unknown\<close>), \<^verbatim>\<open>total_pages\<close> (default 0) and the pages, each with its metadata
  dictionary (default empty) and its text (default empty). Reading the input file and
  writing the output file are left out; the function is modelled from the parsed document
  to the returned dictionary.
\<close>

record cleaned_page =
  pg_metadata :: dict
  pg_text :: string

record cleaned_json =
  pdf_name :: "string option"
  total_pages :: "nat option"
  pages :: "cleaned_page list"

record chunk =
  c_id :: string
  c_text :: string
  char_count :: nat
  word_count :: nat
  c_pdf_name :: string
  start_page :: json
  end_page :: json
  chunk_index :: nat
  c_type :: string

record chunked_json =
  out_pdf_name :: string
  out_total_pages :: nat
  total_chunks :: nat
  out_chunk_size :: nat
  out_chunk_overlap :: nat
  chunks :: "chunk list"

text \<open>
  The chunker's configuration; \<open>split_text\<close> is the \<^verbatim>\<open>RecursiveCharacterTextSplitter\<close>,
  a collaborator that turns the full text into pieces.
\<close>

record chunker =
  chunk_size :: nat
  chunk_overlap :: nat
  split_text :: "string \<Rightarrow> string list"

text \<open>Step 1: the full text and the page of every character of it.\<close>

fun build_full_text :: "cleaned_page list \<Rightarrow> string \<Rightarrow> json list \<Rightarrow> string \<times> json list" where
  "build_full_text [] full_text char_to_page_map = (full_text, char_to_page_map)"
| "build_full_text (page # rest) full_text char_to_page_map =
     (let page_num = (case map_of (pg_metadata page) ''page'' of
                        None \<Rightarrow> JStr ''?'' | Some n \<Rightarrow> n);
          page_text = pg_text page
      in if strip page_text = [] then build_full_text rest full_text char_to_page_map
         else (let page_content = page_text @ [CHR 0x0A, CHR 0x0A]
               in build_full_text rest (full_text @ page_content)
                    (char_to_page_map @ replicate (length page_content) page_num)))"

text \<open>\<^verbatim>\<open>xs[i]\<close> for a non-negative index: out of range raises.\<close>

definition index :: "'a list \<Rightarrow> nat \<Rightarrow> py_error + 'a" where
  "index xs i = (if i < length xs then Inr (xs ! i) else Inl IndexError)"

text \<open>
  Step 3: the loop over the pieces, with \<^verbatim>\<open>all_chunks\<close>, \<^verbatim>\<open>chunk_counter\<close> and
  \<^verbatim>\<open>current_search_start\<close>. A piece is dropped when its stripped text is under 15
  characters, and when neither the forward search nor the search of the whole buffer
  finds it.
\<close>

fun assign_metadata ::
  "string \<Rightarrow> json list \<Rightarrow> string \<Rightarrow> string list \<Rightarrow> chunk list \<Rightarrow> nat \<Rightarrow> nat
   \<Rightarrow> py_error + chunk list" where
  "assign_metadata full_text char_to_page_map name [] all_chunks chunk_counter
     current_search_start = Inr all_chunks"
| "assign_metadata full_text char_to_page_map name (chunk_text # rest) all_chunks chunk_counter
     current_search_start =
     (if length (strip chunk_text) < 15
      then assign_metadata full_text char_to_page_map name rest all_chunks chunk_counter
             current_search_start
      else (case (case find_str full_text chunk_text current_search_start of
                    None \<Rightarrow> find_str full_text chunk_text 0
                  | Some i \<Rightarrow> Some i) of
              None \<Rightarrow> assign_metadata full_text char_to_page_map name rest all_chunks
                        chunk_counter current_search_start
            | Some start_char \<Rightarrow>
                (let end_char = start_char + length chunk_text
                 in case index char_to_page_map start_char of
                      Inl e \<Rightarrow> Inl e
                    | Inr sp \<Rightarrow>
                        (case index char_to_page_map
                                (min (end_char - 1) (length char_to_page_map - 1)) of
                           Inl e \<Rightarrow> Inl e
                         | Inr ep \<Rightarrow>
                             assign_metadata full_text char_to_page_map name rest
                               (all_chunks @
                                  [\<lparr>c_id = name @ ''_'' @ string_of_nat chunk_counter,
                                    c_text = chunk_text,
                                    char_count = length chunk_text,
                                    word_count = length (split_ws chunk_text []),
                                    c_pdf_name = name,
                                    start_page = sp,
                                    end_page = ep,
                                    chunk_index = chunk_counter,
                                    c_type = ''text''\<rparr>])
                               (chunk_counter + 1) end_char))))"

definition chunk_document :: "chunker \<Rightarrow> cleaned_json \<Rightarrow> py_error + chunked_json" where
  "chunk_document ch cleaned =
     (let name = (case pdf_name cleaned of None \<Rightarrow> ''unknown'' | Some n \<Rightarrow> n);
          tp = (case total_pages cleaned of None \<Rightarrow> 0 | Some n \<Rightarrow> n);
          (full_text, char_to_page_map) = build_full_text (pages cleaned) [] []
      in if strip full_text = [] then Inl (ValueError ''No content found to chunk.'')
         else (case assign_metadata full_text char_to_page_map name
                      (split_text ch full_text) [] 0 0 of
                 Inl e \<Rightarrow> Inl e
               | Inr all_chunks \<Rightarrow>
                   Inr \<lparr>out_pdf_name = name, out_total_pages = tp,
                        total_chunks = length all_chunks,
                        out_chunk_size = chunk_size ch,
                        out_chunk_overlap = chunk_overlap ch,
                        chunks = all_chunks\<rparr>))"

section \<open>Router (src/core/router.py)\<close>



datatype response =
    GraphResult graph_state
  | Message string "string option"












section \<open>TextCleaner (src/ingest/text_cleaner.py)\<close>























section \<open>Auxiliary notions for the statements\<close>

text \<open>
  Where the chunker's loop looks for a piece: forward from the end of the previous match,
  then in the whole buffer.
\<close>

definition located :: "string \<Rightarrow> string \<Rightarrow> nat \<Rightarrow> nat option" where
  "located full_text chunk_text current_search_start =
     (case find_str full_text chunk_text current_search_start of
        None \<Rightarrow> find_str full_text chunk_text 0
      | Some i \<Rightarrow> Some i)"

text \<open>
  The chunks the loop appends when it starts with counter \<open>k\<close>: their indexes count up
  from \<open>k\<close> without a gap, their ids are built from the indexes, and each is one of the
  pieces, 15 characters or more once stripped.
\<close>

definition emitted_from :: "string \<Rightarrow> string list \<Rightarrow> nat \<Rightarrow> chunk list \<Rightarrow> bool" where
  "emitted_from name pieces k new =
     (map chunk_index new = [k..<k + length new]
      \<and> map c_id new = map (\<lambda>i. name @ ''_'' @ string_of_nat i) [k..<k + length new]
      \<and> (\<forall>c \<in> set new. c_text c \<in> set pieces \<and> 15 \<le> length (strip (c_text c))))"














section \<open>Concrete inputs\<close>

text \<open>
  A store answer with one entry inside the threshold and one outside, and one whose
  entries are all outside.
\<close>

definition near_and_far :: collection where
  "near_and_far =
     \<lparr>coll_name = ''finreg_text_store'', coll_count = 2,
      coll_query = (\<lambda>e k. \<lparr>documents = [''fee schedule'', ''dress code''],
                              metadatas = [[], []], distances = [1 / 2, 9 / 10]\<rparr>)\<rparr>"

definition all_far :: collection where
  "all_far =
     \<lparr>coll_name = ''finreg_text_store'', coll_count = 2,
      coll_query = (\<lambda>e k. \<lparr>documents = [''dress code'', ''menu''],
                              metadatas = [[], []], distances = [9 / 10, 6 / 5]\<rparr>)\<rparr>"

text \<open>
  A two-page document and a splitter answer with a piece that is too short and a piece
  whose whitespace no longer matches the buffer; and a document whose pages are blank.
\<close>

definition two_pages :: cleaned_json where
  "two_pages =
     \<lparr>pdf_name = Some ''fsr'', total_pages = Some 2,
      pages = [\<lparr>pg_metadata = [(''page'', JNum 1)], pg_text = ''Capital adequacy rules.''\<rparr>,
               \<lparr>pg_metadata = [(''page'', JNum 2)], pg_text = ''Liquidity cover rules.''\<rparr>]\<rparr>"

definition fixed_splitter :: chunker where
  "fixed_splitter =
     \<lparr>chunk_size = 800, chunk_overlap = 200,
      split_text = (\<lambda>t. [''Capital adequacy rules.'', ''rules.'',
                          ''Liquidity  cover rules.'', ''Liquidity cover rules.''])\<rparr>"

definition blank_pages :: cleaned_json where
  "blank_pages =
     \<lparr>pdf_name = Some ''cover'', total_pages = Some 2,
      pages = [\<lparr>pg_metadata = [(''page'', JNum 1)], pg_text = []\<rparr>,
               \<lparr>pg_metadata = [(''page'', JNum 2)], pg_text = [CHR '' '', CHR 0x0A, CHR '' '']\<rparr>]\<rparr>"

text \<open>
  Collaborators for the graph: a classifier that answers \<^verbatim>\<open>{"mode": "web"}\<close> over a
  knowledge base with one populated regulatory text collection, and a knowledge base with
  nothing in it whose web search raises.
\<close>

definition kb_client :: chroma_client where
  "kb_client n = (if n = ''finreg_regulatory_text_store'' then Some near_and_far else None)"

definition web_classifier :: collaborators where
  "web_classifier =
     \<lparr>intent_llm = (\<lambda>q has_upload. ''{\"mode\": \"web\"}''),
      loads_cleaned = (\<lambda>r. Inr (JObj [(''mode'', JStr ''web'')])),
      chroma = kb_client,
      encode = (\<lambda>q. []),
      ddgs_text = (\<lambda>q n. Inr [\<lparr>href = Some ''https://www.sbp.org.pk/circulars'',
                                  title = Some ''Circulars'', body = Some ''Latest''\<rparr>]),
      final_llm = (\<lambda>context. ''See the circular.'')\<rparr>"

definition unparsable_classifier :: collaborators where
  "unparsable_classifier =
     web_classifier\<lparr>intent_llm := (\<lambda>q has_upload. ''LLM_ERROR''),
                    loads_cleaned := (\<lambda>r. Inl JSONDecodeError)\<rparr>"

definition web_classifier_empty_kb :: collaborators where
  "web_classifier_empty_kb = web_classifier\<lparr>chroma := (\<lambda>n. None)\<rparr>"

definition failing_web :: collaborators where
  "failing_web =
     \<lparr>intent_llm = (\<lambda>q has_upload. ''{\"mode\": \"regulatory_only\"}''),
      loads_cleaned = (\<lambda>r. Inr (JObj [(''mode'', JStr ''regulatory_only'')])),
      chroma = (\<lambda>n. None),
      encode = (\<lambda>q. []),
      ddgs_text = (\<lambda>q n. Inl ''timed out''),
      final_llm = (\<lambda>context. ''Nothing was found.'')\<rparr>"

text \<open>
  A knowledge base whose regulatory image collection holds one chart description, stored
  with the metadata \<^verbatim>\<open>Embedder.embed_image_chunks\<close> writes.
\<close>

definition chart_metadata :: dict where
  "chart_metadata =
     [(''pdf_name'', JStr ''fsr_2024''), (''page_number'', JNum 3),
      (''image_path'', JStr ''extracted/charts/fsr_2024_page3_chart1.png''),
      (''type'', JStr ''chart''), (''file_size_kb'', JNum 42)]"

definition chart_collection :: collection where
  "chart_collection =
     \<lparr>coll_name = ''finreg_regulatory_image_store'', coll_count = 1,
      coll_query = (\<lambda>e k. \<lparr>documents = [''Bar chart of sector deposits''],
                              metadatas = [chart_metadata], distances = [1 / 5]\<rparr>)\<rparr>"

definition chart_kb :: collaborators where
  "chart_kb =
     \<lparr>intent_llm = (\<lambda>q has_upload. ''{\"mode\": \"regulatory_only\"}''),
      loads_cleaned = (\<lambda>r. Inr (JObj [(''mode'', JStr ''regulatory_only'')])),
      chroma = (\<lambda>n. if n = ''finreg_regulatory_image_store'' then Some chart_collection
                      else None),
      encode = (\<lambda>q. []),
      ddgs_text = (\<lambda>q n. Inr []),
      final_llm = (\<lambda>context. ''Deposits grew.'')\<rparr>"






section \<open>Properties of the retriever\<close>

lemma search_loop_filter:
  "search_loop cands acc = acc @ map hit_of (filter within_threshold cands)"
  by (induction cands acc rule: search_loop.induct)
     (simp_all add: hit_of_def within_threshold_def SIMILARITY_THRESHOLD_def)

lemma internal_search_filter:
  "internal_search col e k = map hit_of (filter within_threshold (store_answer col e k))"
  by (simp add: internal_search_def search_loop_filter)

lemma h_distance_hit_of: "within_threshold t \<Longrightarrow> h_distance (hit_of t) \<le> 7 / 10"
  by (cases t) (simp add: hit_of_def within_threshold_def)

text \<open>
  C3. For every collection, query embedding and k, the hits the retriever keeps are
  exactly the entries of the store's top-k answer whose distance is at most 0.7, in the
  store's order; every kept hit has distance at most 0.7; and when no entry of the
  answer is within 0.7 the result for that collection is the empty list.
\<close>

theorem search_keeps_exactly_hits_within_threshold:
  "internal_search col e k = map hit_of (filter within_threshold (store_answer col e k))
   \<and> (\<forall>h \<in> set (internal_search col e k). h_distance h \<le> 7 / 10)
   \<and> (\<forall>t \<in> set (store_answer col e k).
         (t \<in> set (filter within_threshold (store_answer col e k)))
           = (snd (snd t) \<le> 7 / 10))
   \<and> ((\<forall>t \<in> set (store_answer col e k). 7 / 10 < snd (snd t))
        \<longrightarrow> internal_search col e k = [])"
proof (intro conjI)
  show "internal_search col e k = map hit_of (filter within_threshold (store_answer col e k))"
    by (rule internal_search_filter)
  show "\<forall>h \<in> set (internal_search col e k). h_distance h \<le> 7 / 10"
    by (auto simp: internal_search_filter dest: h_distance_hit_of)
  show "\<forall>t \<in> set (store_answer col e k).
          (t \<in> set (filter within_threshold (store_answer col e k)))
            = (snd (snd t) \<le> 7 / 10)"
    by (auto simp: within_threshold_def)
  show "(\<forall>t \<in> set (store_answer col e k). 7 / 10 < snd (snd t))
          \<longrightarrow> internal_search col e k = []"
  proof
    assume far: "\<forall>t \<in> set (store_answer col e k). 7 / 10 < snd (snd t)"
    have "filter within_threshold (store_answer col e k) = []"
      unfolding filter_empty_conv
    proof
      fix t assume "t \<in> set (store_answer col e k)"
      with far have "7 / 10 < snd (snd t)" by blast
      then show "\<not> within_threshold t"
        by (cases t) (simp add: within_threshold_def)
    qed
    then show "internal_search col e k = []"
      by (simp add: internal_search_filter)
  qed
qed

theorem search_keeps_exactly_hits_within_threshold_witness:
  "internal_search near_and_far [] 3
     = [\<lparr>h_text = ''fee schedule'', h_metadata = [], h_distance = 1 / 2\<rparr>]
   \<and> list_all (\<lambda>t. 7 / 10 < snd (snd t)) (store_answer all_far [] 3)
   \<and> internal_search all_far [] 3 = []"
proof -
  have far: "\<forall>t \<in> set (store_answer all_far [] 3). 7 / 10 < snd (snd t)"
    by (simp add: store_answer_def all_far_def)
  have "internal_search all_far [] 3 = []"
    using search_keeps_exactly_hits_within_threshold [of all_far "[]" 3] far by blast
  moreover have "internal_search near_and_far [] 3
     = [\<lparr>h_text = ''fee schedule'', h_metadata = [], h_distance = 1 / 2\<rparr>]"
    using search_keeps_exactly_hits_within_threshold [of near_and_far "[]" 3]
    by (simp add: store_answer_def near_and_far_def hit_of_def within_threshold_def)
  ultimately show ?thesis using far by (simp add: list_all_iff)
qed

section \<open>Properties of the query graph\<close>

lemma retrieve_mode_eq:
  "retrieve_mode c s
     = enforce_allowed (allowed_modes (has_session (upload_id s))) (classified_mode c s)"
  by (simp add: retrieve_mode_def IntentAgent_run_def Let_def)

lemma enforce_allowed_cases:
  "enforce_allowed allowed m = ''regulatory_only'' \<or> enforce_allowed allowed m \<in> set allowed"
  by (cases m) auto

lemma enforce_allowed_outside:
  "m \<notin> JStr ` set allowed \<Longrightarrow> enforce_allowed allowed m = ''regulatory_only''"
  by (cases m) auto

lemma regulatory_only_allowed: "''regulatory_only'' \<in> set (allowed_modes b)"
  by (simp add: allowed_modes_def)

lemma classified_mode_parse_failure:
  "loads_cleaned c (intent_llm c (query s) (has_session (upload_id s))) = Inl e
   \<Longrightarrow> classified_mode c s = JStr ''regulatory_only''"
  by (simp add: classified_mode_def)

lemma retrieve_mode_allowed:
  "retrieve_mode c s \<in> set (allowed_modes (has_session (upload_id s)))"
  using enforce_allowed_cases [of "allowed_modes (has_session (upload_id s))" "classified_mode c s"]
  by (auto simp: retrieve_mode_eq regulatory_only_allowed)

text \<open>
  C1 (as the claim states it, refuted). With no session and a classifier that answers
  \<^verbatim>\<open>web\<close>, the mode the Retrieve stage uses is \<^verbatim>\<open>web\<close>.
\<close>

theorem retrieve_mode_can_be_web:
  "retrieve_mode web_classifier (initial_state ''latest SBP circular'' None) = ''web''"
  by (simp add: retrieve_mode_eq classified_mode_def web_classifier_def initial_state_def
        allowed_modes_def)

text \<open>
  C1 (amended). The mode of the Retrieve stage is always in the legal set of the upload
  context: \<^verbatim>\<open>regulatory_only\<close>, \<^verbatim>\<open>uploaded_only\<close> or \<^verbatim>\<open>compare\<close> with a session (so never
  \<^verbatim>\<open>web\<close>), \<^verbatim>\<open>regulatory_only\<close> or \<^verbatim>\<open>web\<close> without one (so never \<^verbatim>\<open>uploaded_only\<close> or
  \<^verbatim>\<open>compare\<close>). A classified mode outside that set, and a classification output that
  fails to parse, give \<^verbatim>\<open>regulatory_only\<close>.
\<close>

theorem intent_mode_legal:
  "retrieve_mode c s \<in> set (allowed_modes (has_session (upload_id s)))
   \<and> (has_session (upload_id s) \<longrightarrow>
        retrieve_mode c s \<in> {''regulatory_only'', ''uploaded_only'', ''compare''}
        \<and> retrieve_mode c s \<noteq> ''web'')
   \<and> (\<not> has_session (upload_id s) \<longrightarrow>
        retrieve_mode c s \<in> {''regulatory_only'', ''web''}
        \<and> retrieve_mode c s \<noteq> ''uploaded_only'' \<and> retrieve_mode c s \<noteq> ''compare'')
   \<and> (classified_mode c s \<notin> JStr ` set (allowed_modes (has_session (upload_id s))) \<longrightarrow>
        retrieve_mode c s = ''regulatory_only'')
   \<and> ((\<exists>e. loads_cleaned c (intent_llm c (query s) (has_session (upload_id s))) = Inl e) \<longrightarrow>
        retrieve_mode c s = ''regulatory_only'')"
proof (intro conjI impI)
  show legal: "retrieve_mode c s \<in> set (allowed_modes (has_session (upload_id s)))"
    by (rule retrieve_mode_allowed)
  {
    assume "has_session (upload_id s)"
    with legal have m: "retrieve_mode c s \<in> {''regulatory_only'', ''uploaded_only'', ''compare''}"
      by (simp add: allowed_modes_def)
    then show "retrieve_mode c s \<in> {''regulatory_only'', ''uploaded_only'', ''compare''}" .
    from m show "retrieve_mode c s \<noteq> ''web''" by auto
  }
  {
    assume "\<not> has_session (upload_id s)"
    with legal have m: "retrieve_mode c s \<in> {''regulatory_only'', ''web''}"
      by (simp add: allowed_modes_def)
    then show "retrieve_mode c s \<in> {''regulatory_only'', ''web''}" .
    from m show "retrieve_mode c s \<noteq> ''uploaded_only''" by auto
    from m show "retrieve_mode c s \<noteq> ''compare''" by auto
  }
  {
    assume "classified_mode c s \<notin> JStr ` set (allowed_modes (has_session (upload_id s)))"
    then show "retrieve_mode c s = ''regulatory_only''"
      unfolding retrieve_mode_eq by (rule enforce_allowed_outside)
  }
  {
    assume "\<exists>e. loads_cleaned c (intent_llm c (query s) (has_session (upload_id s))) = Inl e"
    then have "classified_mode c s = JStr ''regulatory_only''"
      by (auto dest: classified_mode_parse_failure)
    then show "retrieve_mode c s = ''regulatory_only''"
      by (simp add: retrieve_mode_eq allowed_modes_def)
  }
qed

theorem intent_mode_legal_witness:
  "has_session (upload_id (initial_state ''is this policy compliant'' (Some ''abc123'')))
   \<and> classified_mode web_classifier (initial_state ''is this policy compliant'' (Some ''abc123''))
       = JStr ''web''
   \<and> retrieve_mode web_classifier (initial_state ''is this policy compliant'' (Some ''abc123''))
       = ''regulatory_only''
   \<and> \<not> has_session (upload_id (initial_state ''EMI licence fee'' None))
   \<and> loads_cleaned unparsable_classifier
        (intent_llm unparsable_classifier ''EMI licence fee'' False) = Inl JSONDecodeError
   \<and> retrieve_mode unparsable_classifier (initial_state ''EMI licence fee'' None)
       = ''regulatory_only''"
proof -
  let ?s = "initial_state ''is this policy compliant'' (Some ''abc123'')"
  let ?t = "initial_state ''EMI licence fee'' None"
  have up: "has_session (upload_id ?s)"
    by (simp add: initial_state_def)
  have cls: "classified_mode web_classifier ?s = JStr ''web''"
    by (simp add: classified_mode_def web_classifier_def)
  have out: "classified_mode web_classifier ?s
               \<notin> JStr ` set (allowed_modes (has_session (upload_id ?s)))"
    using up by (simp add: cls allowed_modes_def)
  have m1: "retrieve_mode web_classifier ?s = ''regulatory_only''"
    using intent_mode_legal [of web_classifier ?s] out by blast
  have noup: "\<not> has_session (upload_id ?t)"
    by (simp add: initial_state_def)
  have bad: "loads_cleaned unparsable_classifier
               (intent_llm unparsable_classifier ''EMI licence fee'' False) = Inl JSONDecodeError"
    by (simp add: unparsable_classifier_def)
  have "\<exists>e. loads_cleaned unparsable_classifier
               (intent_llm unparsable_classifier (query ?t) (has_session (upload_id ?t))) = Inl e"
    using bad by (simp add: initial_state_def)
  then have m2: "retrieve_mode unparsable_classifier ?t = ''regulatory_only''"
    using intent_mode_legal [of unparsable_classifier ?t] by blast
  from up cls m1 noup bad m2 show ?thesis by blast
qed

lemma Retriever_init_web:
  "Retriever_init client ''web'' u
     = Inr \<lparr>r_mode = ''web'', r_upload_id = u, text_collections = [], image_collections = []\<rparr>"
  by (simp add: Retriever_init_def)

lemma search_no_collections:
  "text_collections r = [] \<Longrightarrow> image_collections r = [] \<Longrightarrow>
   search enc r q = \<lparr>out_uploaded_text = [], out_regulatory_text = [],
                      out_uploaded_images = [], out_regulatory_images = []\<rparr>"
  by (simp add: search_def)

lemma Retriever_init_regulatory_only:
  "Retriever_init client ''regulatory_only'' u
     = Inr (load_regulatory_collections client
              \<lparr>r_mode = ''regulatory_only'', r_upload_id = u,
               text_collections = [], image_collections = []\<rparr>)"
  by (simp add: Retriever_init_def)

lemma IntentAgent_run_fields:
  "mode (IntentAgent_run c s) = Some (retrieve_mode c s)"
  "upload_id (IntentAgent_run c s) = upload_id s"
  "query (IntentAgent_run c s) = query s"
  "progress (IntentAgent_run c s) = progress s @ [DeterminingIntent]"
  by (simp_all add: retrieve_mode_def IntentAgent_run_def Let_def)

lemma WebAgent_run_searches:
  assumes "need_web s = Some True"
  shows "progress (WebAgent_run c s)
           = progress s @ [SearchingWeb] @
               (case ddgs_text c (query s) max_results of
                  Inl e \<Rightarrow> [WebFailed e]
                | Inr rs \<Rightarrow> [if web_loop rs {} [] \<noteq> [] then WebReturned (length (web_loop rs {} []))
                             else WebNoResults])"
    and "web_results (WebAgent_run c s)
           = Some (case ddgs_text c (query s) max_results of
                     Inl e \<Rightarrow> [] | Inr rs \<Rightarrow> web_loop rs {} [])"
  using assms by (simp_all add: WebAgent_run_def Let_def split: sum.splits)

text \<open>
  C2 (as the claim states it, refuted). With a session, a classified \<^verbatim>\<open>web\<close> and one
  regulatory hit, the graph goes from Retrieve straight to Final: no web search is made.
  With no session, the retriever built for the classified \<^verbatim>\<open>web\<close> returns nothing where
  the one built for \<^verbatim>\<open>regulatory_only\<close> returns the hit.
\<close>

theorem web_signal_cancelled_by_hits:
  "classified_mode web_classifier (initial_state ''latest SBP circular'' (Some ''abc123''))
     = JStr ''web''
   \<and> map_sum id progress
        (graph_invoke web_classifier (initial_state ''latest SBP circular'' (Some ''abc123'')))
       = Inr [DeterminingIntent, SearchingKB, FoundChunks 1 0, GeneratingAnswer, AnswerReady]
   \<and> map_sum id web_results
        (graph_invoke web_classifier (initial_state ''latest SBP circular'' (Some ''abc123'')))
       = Inr None
   \<and> map_sum id regulatory_text
        (graph_invoke web_classifier (initial_state ''latest SBP circular'' None))
       = Inr []
   \<and> map_sum id (\<lambda>r. out_regulatory_text (search (\<lambda>q. []) r ''latest SBP circular''))
        (Retriever_init kb_client ''regulatory_only'' None)
       = Inr [\<lparr>h_text = ''fee schedule'', h_metadata = [], h_distance = 1 / 2\<rparr>]"
proof (intro conjI)
  show "classified_mode web_classifier (initial_state ''latest SBP circular'' (Some ''abc123''))
          = JStr ''web''"
    by (simp add: classified_mode_def web_classifier_def)
  show "map_sum id progress
          (graph_invoke web_classifier (initial_state ''latest SBP circular'' (Some ''abc123'')))
        = Inr [DeterminingIntent, SearchingKB, FoundChunks 1 0, GeneratingAnswer, AnswerReady]"
    by code_simp
  show "map_sum id web_results
          (graph_invoke web_classifier (initial_state ''latest SBP circular'' (Some ''abc123'')))
        = Inr None"
    by code_simp
  show "map_sum id regulatory_text
          (graph_invoke web_classifier (initial_state ''latest SBP circular'' None))
        = Inr []"
    by code_simp
  show "map_sum id (\<lambda>r. out_regulatory_text (search (\<lambda>q. []) r ''latest SBP circular''))
          (Retriever_init kb_client ''regulatory_only'' None)
        = Inr [\<lparr>h_text = ''fee schedule'', h_metadata = [], h_distance = 1 / 2\<rparr>]"
    by code_simp
qed

text \<open>
  C2 (amended). For every query with no session whose classified mode is \<^verbatim>\<open>web\<close>, the
  Retrieve stage runs the retriever in mode \<^verbatim>\<open>web\<close>, which consults no collection and
  returns no hit; \<^verbatim>\<open>need_web\<close> is then set, the route is \<^verbatim>\<open>web\<close>, and the Web stage calls
  the search collaborator for that query and stores its deduplicated results. For every
  query with a session whose classified mode is \<^verbatim>\<open>web\<close>, retrieval runs as
  \<^verbatim>\<open>regulatory_only\<close>, and the route is \<^verbatim>\<open>web\<close> when it returns no hit.
\<close>

theorem web_intent_retrieval_and_search:
  assumes "classified_mode c s = JStr ''web''"
  shows "(\<not> has_session (upload_id s) \<longrightarrow>
           (\<exists>s2. RetrievalAgent_run c (IntentAgent_run c s) = Inr s2
              \<and> mode s2 = Some ''web''
              \<and> uploaded_text s2 = [] \<and> regulatory_text s2 = []
              \<and> uploaded_images s2 = [] \<and> regulatory_images s2 = []
              \<and> need_web s2 = Some True
              \<and> route_after_retrieval s2 = ''web''
              \<and> graph_invoke c s = Inr (FinalAgent_run c (WebAgent_run c s2))
              \<and> SearchingWeb \<in> set (progress (WebAgent_run c s2))
              \<and> web_results (WebAgent_run c s2)
                  = Some (case ddgs_text c (query s) max_results of
                            Inl e \<Rightarrow> [] | Inr rs \<Rightarrow> web_loop rs {} [])))
   \<and> (has_session (upload_id s) \<longrightarrow>
           (\<exists>s2 r. RetrievalAgent_run c (IntentAgent_run c s) = Inr s2
              \<and> mode s2 = Some ''regulatory_only''
              \<and> Retriever_init (chroma c) ''regulatory_only'' (upload_id s) = Inr r
              \<and> retrieval_results s2 = Some (search (encode c) r (query s))
              \<and> (total_hits (search (encode c) r (query s)) = 0 \<longrightarrow>
                   route_after_retrieval s2 = ''web''
                   \<and> graph_invoke c s = Inr (FinalAgent_run c (WebAgent_run c s2))
                   \<and> SearchingWeb \<in> set (progress (WebAgent_run c s2)))))"
proof -
  have without: "\<not> has_session (upload_id s) \<longrightarrow>
           (\<exists>s2. RetrievalAgent_run c (IntentAgent_run c s) = Inr s2
              \<and> mode s2 = Some ''web''
              \<and> uploaded_text s2 = [] \<and> regulatory_text s2 = []
              \<and> uploaded_images s2 = [] \<and> regulatory_images s2 = []
              \<and> need_web s2 = Some True
              \<and> route_after_retrieval s2 = ''web''
              \<and> graph_invoke c s = Inr (FinalAgent_run c (WebAgent_run c s2))
              \<and> SearchingWeb \<in> set (progress (WebAgent_run c s2))
              \<and> web_results (WebAgent_run c s2)
                  = Some (case ddgs_text c (query s) max_results of
                            Inl e \<Rightarrow> [] | Inr rs \<Rightarrow> web_loop rs {} []))"
  proof
    assume noup: "\<not> has_session (upload_id s)"
    have m: "retrieve_mode c s = ''web''"
      using assms noup by (simp add: retrieve_mode_eq allowed_modes_def)
    obtain s2 where run: "RetrievalAgent_run c (IntentAgent_run c s) = Inr s2"
      and f: "mode s2 = Some ''web''" "uploaded_text s2 = []" "regulatory_text s2 = []"
             "uploaded_images s2 = []" "regulatory_images s2 = []"
             "need_web s2 = Some True" "query s2 = query s"
      by (simp add: RetrievalAgent_run_def IntentAgent_run_fields m Retriever_init_web
            search_no_collections total_hits_def Let_def)
    have route: "route_after_retrieval s2 = ''web''"
      by (simp add: route_after_retrieval_def f)
    have inv: "graph_invoke c s = Inr (FinalAgent_run c (WebAgent_run c s2))"
      by (simp add: graph_invoke_def run route)
    have "progress (WebAgent_run c s2) = progress s2 @ [SearchingWeb] @
               (case ddgs_text c (query s2) max_results of
                  Inl e \<Rightarrow> [WebFailed e]
                | Inr rs \<Rightarrow> [if web_loop rs {} [] \<noteq> [] then WebReturned (length (web_loop rs {} []))
                             else WebNoResults])"
      by (rule WebAgent_run_searches(1) [OF f(6)])
    then have sw: "SearchingWeb \<in> set (progress (WebAgent_run c s2))" by simp
    have wr: "web_results (WebAgent_run c s2)
                = Some (case ddgs_text c (query s) max_results of
                          Inl e \<Rightarrow> [] | Inr rs \<Rightarrow> web_loop rs {} [])"
      using WebAgent_run_searches(2) [OF f(6), of c] by (simp add: f(7))
    from run f route inv sw wr show "\<exists>s2. RetrievalAgent_run c (IntentAgent_run c s) = Inr s2
              \<and> mode s2 = Some ''web''
              \<and> uploaded_text s2 = [] \<and> regulatory_text s2 = []
              \<and> uploaded_images s2 = [] \<and> regulatory_images s2 = []
              \<and> need_web s2 = Some True
              \<and> route_after_retrieval s2 = ''web''
              \<and> graph_invoke c s = Inr (FinalAgent_run c (WebAgent_run c s2))
              \<and> SearchingWeb \<in> set (progress (WebAgent_run c s2))
              \<and> web_results (WebAgent_run c s2)
                  = Some (case ddgs_text c (query s) max_results of
                            Inl e \<Rightarrow> [] | Inr rs \<Rightarrow> web_loop rs {} [])"
      by blast
  qed
  have with_session: "has_session (upload_id s) \<longrightarrow>
           (\<exists>s2 r. RetrievalAgent_run c (IntentAgent_run c s) = Inr s2
              \<and> mode s2 = Some ''regulatory_only''
              \<and> Retriever_init (chroma c) ''regulatory_only'' (upload_id s) = Inr r
              \<and> retrieval_results s2 = Some (search (encode c) r (query s))
              \<and> (total_hits (search (encode c) r (query s)) = 0 \<longrightarrow>
                   route_after_retrieval s2 = ''web''
                   \<and> graph_invoke c s = Inr (FinalAgent_run c (WebAgent_run c s2))
                   \<and> SearchingWeb \<in> set (progress (WebAgent_run c s2))))"
  proof
    assume up: "has_session (upload_id s)"
    have m: "retrieve_mode c s = ''regulatory_only''"
      using assms up by (simp add: retrieve_mode_eq allowed_modes_def)
    define r where "r = load_regulatory_collections (chroma c)
              \<lparr>r_mode = ''regulatory_only'', r_upload_id = upload_id s,
               text_collections = [], image_collections = []\<rparr>"
    have init: "Retriever_init (chroma c) ''regulatory_only'' (upload_id s) = Inr r"
      by (simp add: Retriever_init_regulatory_only r_def)
    obtain s2 where run: "RetrievalAgent_run c (IntentAgent_run c s) = Inr s2"
      and f: "mode s2 = Some ''regulatory_only''"
             "retrieval_results s2 = Some (search (encode c) r (query s))"
             "total_hits (search (encode c) r (query s)) = 0 \<longrightarrow> need_web s2 = Some True"
      by (cases "total_hits (search (encode c) r (query s)) = 0")
         (simp_all add: RetrievalAgent_run_def IntentAgent_run_fields m init Let_def)
    have tail: "total_hits (search (encode c) r (query s)) = 0 \<longrightarrow>
                   route_after_retrieval s2 = ''web''
                   \<and> graph_invoke c s = Inr (FinalAgent_run c (WebAgent_run c s2))
                   \<and> SearchingWeb \<in> set (progress (WebAgent_run c s2))"
    proof
      assume "total_hits (search (encode c) r (query s)) = 0"
      with f(3) have nw: "need_web s2 = Some True" by blast
      have route: "route_after_retrieval s2 = ''web''"
        by (simp add: route_after_retrieval_def nw)
      have inv: "graph_invoke c s = Inr (FinalAgent_run c (WebAgent_run c s2))"
        by (simp add: graph_invoke_def run route)
      have "SearchingWeb \<in> set (progress (WebAgent_run c s2))"
        by (simp add: WebAgent_run_searches(1) [OF nw])
      with route inv show "route_after_retrieval s2 = ''web''
                   \<and> graph_invoke c s = Inr (FinalAgent_run c (WebAgent_run c s2))
                   \<and> SearchingWeb \<in> set (progress (WebAgent_run c s2))" by blast
    qed
    show "\<exists>s2 r. RetrievalAgent_run c (IntentAgent_run c s) = Inr s2
              \<and> mode s2 = Some ''regulatory_only''
              \<and> Retriever_init (chroma c) ''regulatory_only'' (upload_id s) = Inr r
              \<and> retrieval_results s2 = Some (search (encode c) r (query s))
              \<and> (total_hits (search (encode c) r (query s)) = 0 \<longrightarrow>
                   route_after_retrieval s2 = ''web''
                   \<and> graph_invoke c s = Inr (FinalAgent_run c (WebAgent_run c s2))
                   \<and> SearchingWeb \<in> set (progress (WebAgent_run c s2)))"
    proof (intro exI conjI)
      show "RetrievalAgent_run c (IntentAgent_run c s) = Inr s2" by (rule run)
      show "mode s2 = Some ''regulatory_only''" by (rule f(1))
      show "Retriever_init (chroma c) ''regulatory_only'' (upload_id s) = Inr r" by (rule init)
      show "retrieval_results s2 = Some (search (encode c) r (query s))" by (rule f(2))
      show "total_hits (search (encode c) r (query s)) = 0 \<longrightarrow>
                   route_after_retrieval s2 = ''web''
                   \<and> graph_invoke c s = Inr (FinalAgent_run c (WebAgent_run c s2))
                   \<and> SearchingWeb \<in> set (progress (WebAgent_run c s2))" by (rule tail)
    qed
  qed
  from without with_session show ?thesis by (rule conjI)
qed

theorem web_intent_retrieval_and_search_witness:
  "classified_mode web_classifier (initial_state ''latest SBP circular'' None) = JStr ''web''
   \<and> \<not> has_session (upload_id (initial_state ''latest SBP circular'' None))
   \<and> (\<exists>s2. RetrievalAgent_run web_classifier
               (IntentAgent_run web_classifier (initial_state ''latest SBP circular'' None))
             = Inr s2
          \<and> route_after_retrieval s2 = ''web''
          \<and> web_results (WebAgent_run web_classifier s2)
              = Some [\<lparr>w_title = ''Circulars'', w_url = ''https://www.sbp.org.pk/circulars'',
                       w_snippet = ''Latest''\<rparr>])
   \<and> has_session (upload_id (initial_state ''latest SBP circular'' (Some ''abc123'')))
   \<and> (\<exists>s2. RetrievalAgent_run web_classifier_empty_kb
               (IntentAgent_run web_classifier_empty_kb
                  (initial_state ''latest SBP circular'' (Some ''abc123'')))
             = Inr s2
          \<and> mode s2 = Some ''regulatory_only''
          \<and> route_after_retrieval s2 = ''web'')"
proof -
  let ?s = "initial_state ''latest SBP circular'' None"
  let ?t = "initial_state ''latest SBP circular'' (Some ''abc123'')"
  have cls: "classified_mode web_classifier ?s = JStr ''web''"
    by (simp add: classified_mode_def web_classifier_def)
  have noup: "\<not> has_session (upload_id ?s)"
    by (simp add: initial_state_def)
  from web_intent_retrieval_and_search [OF cls, THEN conjunct1, THEN mp, OF noup]
  obtain s2 where a: "RetrievalAgent_run web_classifier (IntentAgent_run web_classifier ?s) = Inr s2"
      "route_after_retrieval s2 = ''web''"
      "web_results (WebAgent_run web_classifier s2)
         = Some (case ddgs_text web_classifier (query ?s) max_results of
                   Inl e \<Rightarrow> [] | Inr rs \<Rightarrow> web_loop rs {} [])"
    by blast
  have "web_results (WebAgent_run web_classifier s2)
          = Some [\<lparr>w_title = ''Circulars'', w_url = ''https://www.sbp.org.pk/circulars'',
                   w_snippet = ''Latest''\<rparr>]"
    unfolding a(3) by (simp add: web_classifier_def)
  with a(1,2) have first: "\<exists>s2. RetrievalAgent_run web_classifier
               (IntentAgent_run web_classifier ?s) = Inr s2
          \<and> route_after_retrieval s2 = ''web''
          \<and> web_results (WebAgent_run web_classifier s2)
              = Some [\<lparr>w_title = ''Circulars'', w_url = ''https://www.sbp.org.pk/circulars'',
                       w_snippet = ''Latest''\<rparr>]"
    by blast
  have cls2: "classified_mode web_classifier_empty_kb ?t = JStr ''web''"
    by (simp add: classified_mode_def web_classifier_empty_kb_def web_classifier_def)
  have up: "has_session (upload_id ?t)"
    by (simp add: initial_state_def)
  have second: "\<exists>s2. RetrievalAgent_run web_classifier_empty_kb
               (IntentAgent_run web_classifier_empty_kb ?t) = Inr s2
          \<and> mode s2 = Some ''regulatory_only''
          \<and> route_after_retrieval s2 = ''web''"
    using web_intent_retrieval_and_search [OF cls2, THEN conjunct2, THEN mp, OF up]
    by (auto simp: Retriever_init_def load_regulatory_collections_def
          web_classifier_empty_kb_def initial_state_def search_def total_hits_def)
  from cls noup first up second show ?thesis by blast
qed

lemma hit_get_image_path: "hit_get h ''image_path'' = None"
  by (simp add: hit_get_def)

lemma image_path_list_empty: "image_path_list hits = []"
  by (simp add: image_path_list_def hit_get_image_path)

lemma FinalAgent_run_images: "images (FinalAgent_run c s) = []"
  by (simp add: FinalAgent_run_def Let_def image_path_list_empty)

text \<open>
  C8 (the code at the failing input). The knowledge base holds one chart description whose
  metadata carries its image path; the retriever returns it as a regulatory image hit, the
  Final stage puts its text in the synthesis context, and the result's images list is
  empty: \<^verbatim>\<open>FinalAgent.run\<close> looks for \<^verbatim>\<open>image_path\<close> among the keys of the hit, where
  the retriever put it under \<^verbatim>\<open>metadata\<close>.
\<close>

theorem final_agent_loses_image_path:
  "map_sum id regulatory_images (graph_invoke chart_kb (initial_state ''deposit growth'' None))
     = Inr [\<lparr>h_text = ''Bar chart of sector deposits'', h_metadata = chart_metadata,
             h_distance = 1 / 5\<rparr>]
   \<and> map_of chart_metadata ''image_path''
       = Some (JStr ''extracted/charts/fsr_2024_page3_chart1.png'')
   \<and> sections \<lparr>query = ''deposit growth'', upload_id = None, mode = Some ''regulatory_only'',
                need_web = Some False, uploaded_text = [], regulatory_text = [],
                uploaded_images = [],
                regulatory_images = [\<lparr>h_text = ''Bar chart of sector deposits'',
                                        h_metadata = chart_metadata, h_distance = 1 / 5\<rparr>],
                retrieval_results = None, web_results = None, answer = None, images = [],
                progress = []\<rparr>
       = [''--- Regulatory Images ---'' @ [newline] @ ''[REGULATORY_IMAGE]'' @ [newline]
          @ ''Bar chart of sector deposits'']
   \<and> map_sum id images (graph_invoke chart_kb (initial_state ''deposit growth'' None)) = Inr []"
proof (intro conjI)
  show "map_sum id regulatory_images
          (graph_invoke chart_kb (initial_state ''deposit growth'' None))
        = Inr [\<lparr>h_text = ''Bar chart of sector deposits'', h_metadata = chart_metadata,
                h_distance = 1 / 5\<rparr>]"
    by code_simp
  show "map_of chart_metadata ''image_path''
          = Some (JStr ''extracted/charts/fsr_2024_page3_chart1.png'')"
    by (simp add: chart_metadata_def)
  show "sections \<lparr>query = ''deposit growth'', upload_id = None, mode = Some ''regulatory_only'',
                need_web = Some False, uploaded_text = [], regulatory_text = [],
                uploaded_images = [],
                regulatory_images = [\<lparr>h_text = ''Bar chart of sector deposits'',
                                        h_metadata = chart_metadata, h_distance = 1 / 5\<rparr>],
                retrieval_results = None, web_results = None, answer = None, images = [],
                progress = []\<rparr>
       = [''--- Regulatory Images ---'' @ [newline] @ ''[REGULATORY_IMAGE]'' @ [newline]
          @ ''Bar chart of sector deposits'']"
    by (simp add: sections_def fmt_blocks_def fmt_web_def)
  show "map_sum id images (graph_invoke chart_kb (initial_state ''deposit growth'' None)) = Inr []"
    by code_simp
qed

text \<open>
  C9. When the Retrieve stage routes to the Web stage and the web search collaborator
  raises, the query does not abort: the graph returns a final state whose
  \<^verbatim>\<open>web_results\<close> is the empty list, whose progress log records the failure with the
  exception's message, and which carries the answer of the Final stage.
\<close>

theorem web_search_failure_is_not_fatal:
  assumes "RetrievalAgent_run c (IntentAgent_run c s0) = Inr s2"
    and "route_after_retrieval s2 = ''web''"
    and "ddgs_text c (query s2) max_results = Inl e"
  shows "web_results (WebAgent_run c s2) = Some []
         \<and> progress (WebAgent_run c s2) = progress s2 @ [SearchingWeb, WebFailed e]
         \<and> (\<exists>final. graph_invoke c s0 = Inr final
               \<and> web_results final = Some []
               \<and> progress final
                   = progress s2 @ [SearchingWeb, WebFailed e, GeneratingAnswer, AnswerReady]
               \<and> answer final
                   = Some (final_llm c
                       (context_of ((WebAgent_run c s2)
                          \<lparr>progress := progress (WebAgent_run c s2) @ [GeneratingAnswer]\<rparr>))))"
proof -
  have nw: "need_web s2 = Some True"
    using assms(2) by (auto simp: route_after_retrieval_def split: option.splits if_splits)
  have w: "web_results (WebAgent_run c s2) = Some []"
    using WebAgent_run_searches(2) [OF nw, of c] by (simp add: assms(3))
  have p: "progress (WebAgent_run c s2) = progress s2 @ [SearchingWeb, WebFailed e]"
    using WebAgent_run_searches(1) [OF nw, of c] by (simp add: assms(3))
  have inv: "graph_invoke c s0 = Inr (FinalAgent_run c (WebAgent_run c s2))"
    by (simp add: graph_invoke_def assms(1,2))
  have "\<exists>final. graph_invoke c s0 = Inr final
               \<and> web_results final = Some []
               \<and> progress final
                   = progress s2 @ [SearchingWeb, WebFailed e, GeneratingAnswer, AnswerReady]
               \<and> answer final
                   = Some (final_llm c
                       (context_of ((WebAgent_run c s2)
                          \<lparr>progress := progress (WebAgent_run c s2) @ [GeneratingAnswer]\<rparr>)))"
  proof (intro exI conjI)
    show "graph_invoke c s0 = Inr (FinalAgent_run c (WebAgent_run c s2))" by (rule inv)
    show "web_results (FinalAgent_run c (WebAgent_run c s2)) = Some []"
      by (simp add: FinalAgent_run_def Let_def w)
    show "progress (FinalAgent_run c (WebAgent_run c s2))
            = progress s2 @ [SearchingWeb, WebFailed e, GeneratingAnswer, AnswerReady]"
      by (simp add: FinalAgent_run_def Let_def p)
    show "answer (FinalAgent_run c (WebAgent_run c s2))
            = Some (final_llm c
                 (context_of ((WebAgent_run c s2)
                    \<lparr>progress := progress (WebAgent_run c s2) @ [GeneratingAnswer]\<rparr>)))"
      by (simp add: FinalAgent_run_def Let_def)
  qed
  with w p show ?thesis by (intro conjI)
qed

theorem web_search_failure_is_not_fatal_witness:
  "ddgs_text failing_web ''EMI licence fee'' max_results = Inl ''timed out''
   \<and> (\<exists>final. graph_invoke failing_web (initial_state ''EMI licence fee'' None) = Inr final
         \<and> web_results final = Some []
         \<and> progress final
             = [DeterminingIntent, SearchingKB, NothingInKB, SearchingWeb,
                WebFailed ''timed out'', GeneratingAnswer, AnswerReady])"
proof -
  let ?s0 = "initial_state ''EMI licence fee'' None"
  define s2 where "s2 = ?s0\<lparr>progress := [DeterminingIntent, SearchingKB, NothingInKB],
                            mode := Some ''regulatory_only'',
                            retrieval_results :=
                              Some \<lparr>out_uploaded_text = [], out_regulatory_text = [],
                                    out_uploaded_images = [], out_regulatory_images = []\<rparr>,
                            need_web := Some True\<rparr>"
  have run: "RetrievalAgent_run failing_web (IntentAgent_run failing_web ?s0) = Inr s2"
    by (simp add: s2_def RetrievalAgent_run_def IntentAgent_run_def classified_mode_def
          allowed_modes_def failing_web_def initial_state_def Retriever_init_def
          load_regulatory_collections_def search_def total_hits_def Let_def)
  have route: "route_after_retrieval s2 = ''web''"
    by (simp add: route_after_retrieval_def s2_def)
  have raised: "ddgs_text failing_web (query s2) max_results = Inl ''timed out''"
    by (simp add: failing_web_def)
  have raised': "ddgs_text failing_web ''EMI licence fee'' max_results = Inl ''timed out''"
    by (simp add: failing_web_def)
  from web_search_failure_is_not_fatal [OF run route raised]
  have "\<exists>final. graph_invoke failing_web ?s0 = Inr final
         \<and> web_results final = Some []
         \<and> progress final
             = progress s2 @ [SearchingWeb, WebFailed ''timed out'', GeneratingAnswer, AnswerReady]"
    by (elim conjE exE, intro exI conjI)
  then have "\<exists>final. graph_invoke failing_web ?s0 = Inr final
         \<and> web_results final = Some []
         \<and> progress final
             = [DeterminingIntent, SearchingKB, NothingInKB, SearchingWeb,
                WebFailed ''timed out'', GeneratingAnswer, AnswerReady]"
    by (simp add: s2_def initial_state_def)
  with raised' show ?thesis by (rule conjI)
qed

section \<open>Properties of the chunker\<close>

lemma take_eq_length_le: "take n xs = ys \<Longrightarrow> length ys \<le> length xs"
  by auto

lemma find_at_bound:
  "find_at sub s i = Some j \<Longrightarrow> i \<le> j \<and> (j - i) + length sub \<le> length s"
proof (induction s arbitrary: i)
  case Nil
  then show ?case by (simp split: if_splits)
next
  case (Cons c cs)
  show ?case
  proof (cases "take (length sub) (c # cs) = sub")
    case True
    then have "length sub \<le> length (c # cs)"
      by (rule take_eq_length_le)
    with True Cons.prems show ?thesis by simp
  next
    case False
    with Cons.prems have "find_at sub cs (Suc i) = Some j" by simp
    from Cons.IH [OF this] have "Suc i \<le> j \<and> j - Suc i + length sub \<le> length cs" .
    then have "i \<le> j \<and> j - i + length sub \<le> Suc (length cs)" by arith
    then show ?thesis by (simp only: length_Cons)
  qed
qed

lemma find_str_bound: "find_str s sub start = Some j \<Longrightarrow> j + length sub \<le> length s"
proof -
  assume a: "find_str s sub start = Some j"
  then have le: "start \<le> length s" and f: "find_at sub (drop start s) start = Some j"
    by (simp_all add: find_str_def split: if_splits)
  have "length (drop start s) = length s - start" by simp
  with find_at_bound [OF f]
  have "start \<le> j \<and> j - start + length sub \<le> length s - start" by (simp only:)
  with le show ?thesis by arith
qed

lemma length_strip_le: "length (strip s) \<le> length s"
proof -
  have "length (dropWhile is_space (rev (dropWhile is_space s)))
          \<le> length (rev (dropWhile is_space s))"
    by (rule length_dropWhile_le)
  also have "\<dots> = length (dropWhile is_space s)" by simp
  also have "\<dots> \<le> length s" by (rule length_dropWhile_le)
  finally show ?thesis by (simp add: strip_def)
qed

lemma build_full_text_length:
  "length m = length t \<Longrightarrow> build_full_text ps t m = (t', m') \<Longrightarrow> length m' = length t'"
proof (induction ps arbitrary: t m)
  case Nil
  then show ?case by simp
next
  case (Cons p ps)
  show ?case
  proof (cases "strip (pg_text p) = []")
    case True
    with Cons.prems(2) have "build_full_text ps t m = (t', m')" by simp
    from Cons.IH [OF Cons.prems(1) this] show ?thesis .
  next
    case False
    let ?pc = "pg_text p @ [CHR 0x0A, CHR 0x0A]"
    let ?n = "(case map_of (pg_metadata p) ''page'' of None \<Rightarrow> JStr ''?'' | Some n \<Rightarrow> n)"
    from False Cons.prems(2)
    have b: "build_full_text ps (t @ ?pc) (m @ replicate (length ?pc) ?n) = (t', m')"
      by (simp add: Let_def)
    have "length (m @ replicate (length ?pc) ?n) = length (t @ ?pc)"
      using Cons.prems(1) by simp
    from Cons.IH [OF this b] show ?thesis .
  qed
qed

lemma build_full_text_blank:
  "\<forall>p \<in> set ps. strip (pg_text p) = [] \<Longrightarrow> build_full_text ps t m = (t, m)"
  by (induction ps) simp_all

lemma located_bound: "located ft ct st = Some j \<Longrightarrow> j + length ct \<le> length ft"
  by (auto simp: located_def split: option.splits dest: find_str_bound)

lemma emitted_from_Nil: "emitted_from name pieces k []"
  by (simp add: emitted_from_def)

lemma emitted_from_skip:
  "emitted_from name rest k new \<Longrightarrow> emitted_from name (ct # rest) k new"
  by (simp add: emitted_from_def)

lemma upt_head: "[k..<k + Suc n] = k # [k + 1..<k + 1 + n]"
  by (subst upt_rec) simp

lemma emitted_from_keep:
  assumes "chunk_index c = k" and "c_id c = name @ ''_'' @ string_of_nat k"
    and "c_text c = ct" and "15 \<le> length (strip ct)"
    and "emitted_from name rest (k + 1) new"
  shows "emitted_from name (ct # rest) k (c # new)"
proof -
  from assms(5) have a: "map chunk_index new = [k + 1..<k + 1 + length new]"
    and b: "map c_id new = map (\<lambda>i. name @ ''_'' @ string_of_nat i) [k + 1..<k + 1 + length new]"
    and d: "\<forall>c \<in> set new. c_text c \<in> set rest \<and> 15 \<le> length (strip (c_text c))"
    by (simp_all add: emitted_from_def)
  have "map chunk_index (c # new) = [k..<k + length (c # new)]"
    using a assms(1) by (simp only: list.map length_Cons upt_head)
  moreover have "map c_id (c # new)
                   = map (\<lambda>i. name @ ''_'' @ string_of_nat i) [k..<k + length (c # new)]"
    using b assms(2) by (simp only: list.map length_Cons upt_head)
  moreover have "\<forall>x \<in> set (c # new). c_text x \<in> set (ct # rest)
                    \<and> 15 \<le> length (strip (c_text x))"
    using d assms(3,4) by simp
  ultimately show ?thesis by (simp only: emitted_from_def)
qed

lemma assign_metadata_dense:
  assumes len: "length m = length ft"
  shows "\<exists>new. assign_metadata ft m name cs acc k st = Inr (acc @ new)
           \<and> emitted_from name cs k new"
proof (induction cs arbitrary: acc k st)
  case Nil
  have "assign_metadata ft m name [] acc k st = Inr (acc @ [])" by simp
  with emitted_from_Nil show ?case by blast
next
  case (Cons ct rest)
  show ?case
  proof (cases "length (strip ct) < 15 \<or> located ft ct st = None")
    case True
    then have skip: "assign_metadata ft m name (ct # rest) acc k st
                       = assign_metadata ft m name rest acc k st"
      by (auto simp: located_def)
    from Cons.IH [of acc k st]
    obtain new where n: "assign_metadata ft m name rest acc k st = Inr (acc @ new)
                          \<and> emitted_from name rest k new" ..
    from n skip have "assign_metadata ft m name (ct # rest) acc k st = Inr (acc @ new)"
      by simp
    moreover from n have "emitted_from name (ct # rest) k new"
      by (simp add: emitted_from_skip)
    ultimately show ?thesis by blast
  next
    case False
    then have long: "15 \<le> length (strip ct)" by simp
    from False obtain j where Some: "located ft ct st = Some j" by auto
    from located_bound [OF Some] have jb: "j + length ct \<le> length ft" .
    from long length_strip_le [of ct] have pos: "15 \<le> length ct" by simp
    from jb pos len have i1: "j < length m" by simp
    from jb pos len have i2: "min (j + length ct - 1) (length m - 1) < length m" by simp
    define c where "c = \<lparr>c_id = name @ ''_'' @ string_of_nat k, c_text = ct,
                          char_count = length ct, word_count = length (split_ws ct []),
                          c_pdf_name = name, start_page = m ! j,
                          end_page = m ! (min (j + length ct - 1) (length m - 1)),
                          chunk_index = k, c_type = ''text''\<rparr>"
    have step: "assign_metadata ft m name (ct # rest) acc k st
                  = assign_metadata ft m name rest (acc @ [c]) (k + 1) (j + length ct)"
      using long Some i1 i2 by (simp add: located_def index_def c_def Let_def)
    from Cons.IH [of "acc @ [c]" "k + 1" "j + length ct"]
    obtain new where n: "assign_metadata ft m name rest (acc @ [c]) (k + 1) (j + length ct)
                           = Inr ((acc @ [c]) @ new)
                         \<and> emitted_from name rest (k + 1) new" ..
    from n step have "assign_metadata ft m name (ct # rest) acc k st = Inr (acc @ (c # new))"
      by simp
    moreover have "emitted_from name (ct # rest) k (c # new)"
    proof (rule emitted_from_keep)
      show "chunk_index c = k" by (simp add: c_def)
      show "c_id c = name @ ''_'' @ string_of_nat k" by (simp add: c_def)
      show "c_text c = ct" by (simp add: c_def)
      show "15 \<le> length (strip ct)" by (rule long)
      show "emitted_from name rest (k + 1) new" using n by simp
    qed
    ultimately show ?thesis by blast
  qed
qed

lemma chunk_document_content:
  assumes "build_full_text (pages d) [] [] = (ft, m)" and "strip ft \<noteq> []"
  shows "\<exists>new. chunk_document ch d
                 = Inr \<lparr>out_pdf_name = (case pdf_name d of None \<Rightarrow> ''unknown'' | Some n \<Rightarrow> n),
                        out_total_pages = (case total_pages d of None \<Rightarrow> 0 | Some n \<Rightarrow> n),
                        total_chunks = length new, out_chunk_size = chunk_size ch,
                        out_chunk_overlap = chunk_overlap ch, chunks = new\<rparr>
               \<and> emitted_from (case pdf_name d of None \<Rightarrow> ''unknown'' | Some n \<Rightarrow> n)
                    (split_text ch ft) 0 new"
proof -
  let ?name = "case pdf_name d of None \<Rightarrow> ''unknown'' | Some n \<Rightarrow> n"
  have len: "length m = length ft"
    using build_full_text_length [OF _ assms(1)] by simp
  from assign_metadata_dense [OF len, of ?name "split_text ch ft" "[]" 0 0]
  obtain new where n: "assign_metadata ft m ?name (split_text ch ft) [] 0 0 = Inr ([] @ new)
                        \<and> emitted_from ?name (split_text ch ft) 0 new" ..
  then have "chunk_document ch d
               = Inr \<lparr>out_pdf_name = ?name,
                      out_total_pages = (case total_pages d of None \<Rightarrow> 0 | Some n \<Rightarrow> n),
                      total_chunks = length new, out_chunk_size = chunk_size ch,
                      out_chunk_overlap = chunk_overlap ch, chunks = new\<rparr>"
    using assms by (simp add: chunk_document_def)
  with n show ?thesis by blast
qed

lemma chunk_document_no_content:
  assumes "build_full_text (pages d) [] [] = (ft, m)" and "strip ft = []"
  shows "chunk_document ch d = Inl (ValueError ''No content found to chunk.'')"
  using assms by (simp add: chunk_document_def)

text \<open>
  C7. Whatever pieces the splitter returns, a document with content is chunked to the
  end: a piece under 15 stripped characters and a piece found nowhere in the full-text
  buffer are passed over, and neither aborts the run. The chunks that are emitted carry
  the indexes 0, 1, ..., n-1 in output order, n is the reported total, and each chunk is
  one of the splitter's pieces with at least 15 stripped characters. So every successful
  result has a dense, zero-based index sequence.
\<close>

theorem chunk_index_dense:
  "(strip (fst (build_full_text (pages d) [] [])) \<noteq> [] \<longrightarrow>
      (\<exists>out. chunk_document ch d = Inr out
          \<and> map chunk_index (chunks out) = [0..<length (chunks out)]
          \<and> total_chunks out = length (chunks out)
          \<and> (\<forall>c \<in> set (chunks out).
                c_text c \<in> set (split_text ch (fst (build_full_text (pages d) [] [])))
                \<and> 15 \<le> length (strip (c_text c)))))
   \<and> (\<forall>out. chunk_document ch d = Inr out \<longrightarrow>
         map chunk_index (chunks out) = [0..<length (chunks out)])"
proof -
  obtain ft m where b: "build_full_text (pages d) [] [] = (ft, m)"
    by (cases "build_full_text (pages d) [] []")
  have content: "strip ft \<noteq> [] \<longrightarrow>
      (\<exists>out. chunk_document ch d = Inr out
          \<and> map chunk_index (chunks out) = [0..<length (chunks out)]
          \<and> total_chunks out = length (chunks out)
          \<and> (\<forall>c \<in> set (chunks out).
                c_text c \<in> set (split_text ch ft) \<and> 15 \<le> length (strip (c_text c))))"
  proof
    assume "strip ft \<noteq> []"
    from chunk_document_content [OF b this, of ch]
    obtain new where n: "chunk_document ch d
                 = Inr \<lparr>out_pdf_name = (case pdf_name d of None \<Rightarrow> ''unknown'' | Some n \<Rightarrow> n),
                        out_total_pages = (case total_pages d of None \<Rightarrow> 0 | Some n \<Rightarrow> n),
                        total_chunks = length new, out_chunk_size = chunk_size ch,
                        out_chunk_overlap = chunk_overlap ch, chunks = new\<rparr>
               \<and> emitted_from (case pdf_name d of None \<Rightarrow> ''unknown'' | Some n \<Rightarrow> n)
                    (split_text ch ft) 0 new" ..
    let ?out = "\<lparr>out_pdf_name = (case pdf_name d of None \<Rightarrow> ''unknown'' | Some n \<Rightarrow> n),
                        out_total_pages = (case total_pages d of None \<Rightarrow> 0 | Some n \<Rightarrow> n),
                        total_chunks = length new, out_chunk_size = chunk_size ch,
                        out_chunk_overlap = chunk_overlap ch, chunks = new\<rparr>"
    from n have e: "map chunk_index new = [0..<length new]"
      and t: "\<forall>c \<in> set new. c_text c \<in> set (split_text ch ft) \<and> 15 \<le> length (strip (c_text c))"
      by (simp_all add: emitted_from_def)
    show "\<exists>out. chunk_document ch d = Inr out
          \<and> map chunk_index (chunks out) = [0..<length (chunks out)]
          \<and> total_chunks out = length (chunks out)
          \<and> (\<forall>c \<in> set (chunks out).
                c_text c \<in> set (split_text ch ft) \<and> 15 \<le> length (strip (c_text c)))"
    proof (intro exI conjI)
      show "chunk_document ch d = Inr ?out" using n by simp
      show "map chunk_index (chunks ?out) = [0..<length (chunks ?out)]" using e by simp
      show "total_chunks ?out = length (chunks ?out)" by simp
      show "\<forall>c \<in> set (chunks ?out).
              c_text c \<in> set (split_text ch ft) \<and> 15 \<le> length (strip (c_text c))"
        using t by simp
    qed
  qed
  have every: "\<forall>out. chunk_document ch d = Inr out \<longrightarrow>
         map chunk_index (chunks out) = [0..<length (chunks out)]"
  proof (intro allI impI)
    fix out assume ok: "chunk_document ch d = Inr out"
    have "strip ft \<noteq> []"
    proof
      assume "strip ft = []"
      from chunk_document_no_content [OF b this, of ch] ok show False by simp
    qed
    with content obtain out' where o: "chunk_document ch d = Inr out'"
        "map chunk_index (chunks out') = [0..<length (chunks out')]"
      by blast
    from o(1) ok have "out' = out" by simp
    with o(2) show "map chunk_index (chunks out) = [0..<length (chunks out)]" by simp
  qed
  from content every show ?thesis by (simp add: b)
qed

theorem chunk_index_dense_witness:
  "strip (fst (build_full_text (pages two_pages) [] [])) \<noteq> []
   \<and> map_sum id (\<lambda>out. map c_text (chunks out)) (chunk_document fixed_splitter two_pages)
       = Inr [''Capital adequacy rules.'', ''Liquidity cover rules.'']
   \<and> (\<exists>out. chunk_document fixed_splitter two_pages = Inr out
         \<and> map chunk_index (chunks out) = [0, 1])"
proof -
  have c: "strip (fst (build_full_text (pages two_pages) [] [])) \<noteq> []"
    by code_simp
  have t: "map_sum id (\<lambda>out. map c_text (chunks out)) (chunk_document fixed_splitter two_pages)
             = Inr [''Capital adequacy rules.'', ''Liquidity cover rules.'']"
    by code_simp
  from chunk_index_dense [of two_pages fixed_splitter, THEN conjunct1, THEN mp, OF c]
  obtain out where o: "chunk_document fixed_splitter two_pages = Inr out
          \<and> map chunk_index (chunks out) = [0..<length (chunks out)]
          \<and> total_chunks out = length (chunks out)
          \<and> (\<forall>c \<in> set (chunks out).
                c_text c \<in> set (split_text fixed_splitter
                                   (fst (build_full_text (pages two_pages) [] [])))
                \<and> 15 \<le> length (strip (c_text c)))" ..
  from o t have "length (chunks out) = 2"
    by (auto dest: arg_cong [where f = length])
  with o have idx: "map chunk_index (chunks out) = [0, 1]"
    by (simp add: upt_rec)
  from o have o1: "chunk_document fixed_splitter two_pages = Inr out"
    by (rule conjunct1)
  have "\<exists>out. chunk_document fixed_splitter two_pages = Inr out
         \<and> map chunk_index (chunks out) = [0, 1]"
    by (rule exI [of _ out]) (simp add: o1 idx)
  with c t show ?thesis by (intro conjI)
qed

text \<open>
  C10. When the cleaned text of every page is empty or whitespace only, no page enters
  the full-text buffer and \<^verbatim>\<open>chunk_document\<close> raises
  \<^verbatim>\<open>ValueError("No content found to chunk.")\<close>; it returns no chunk set.
\<close>

theorem blank_document_raises:
  assumes "\<forall>p \<in> set (pages d). strip (pg_text p) = []"
  shows "chunk_document ch d = Inl (ValueError ''No content found to chunk.'')"
proof -
  from assms have "build_full_text (pages d) [] [] = ([], [])"
    by (rule build_full_text_blank)
  moreover have "strip [] = []" by (simp add: strip_def)
  ultimately show ?thesis by (rule chunk_document_no_content)
qed

theorem blank_document_raises_witness:
  "list_all (\<lambda>p. strip (pg_text p) = []) (pages blank_pages)
   \<and> chunk_document fixed_splitter blank_pages = Inl (ValueError ''No content found to chunk.'')"
proof -
  have b: "list_all (\<lambda>p. strip (pg_text p) = []) (pages blank_pages)"
    by code_simp
  then have "\<forall>p \<in> set (pages blank_pages). strip (pg_text p) = []"
    by (simp add: list_all_iff)
  from blank_document_raises [OF this, of fixed_splitter] b show ?thesis by (intro conjI)
qed

section \<open>Properties of the router\<close>












section \<open>Properties of the text cleaner\<close>

subsection \<open>Stripping\<close>





subsection \<open>The protection rule\<close>












subsection \<open>The counters\<close>



















end
